theory Spec2Isabelle
  imports Main "HOL-Library.Word"
begin

unbundle bit_operations_syntax

section \<open>The hsup allocator: data model\<close>

text \<open>
  The development embeds \<^verbatim>\<open>allocator.go\<close>: the construction of an
  \<^verbatim>\<open>Allocator\<close>, the arithmetic that maps a UID to a /30 IPv4 network, and the
  probe loop that reserves a UID by exclusive file creation.

  Go's \<^verbatim>\<open>uint32\<close> is \<open>32 word\<close>, a byte is \<open>8 word\<close>, and a byte slice is a list
  (the nil slice is the empty list). Go's \<^verbatim>\<open>int\<close> is modelled by \<open>int\<close>; the
  one place where the width of a conversion matters, \<^verbatim>\<open>uint32(uid-a.minUID)\<close>, is
  \<open>word_of_int\<close>, which reduces modulo \<open>2 ^ 32\<close> exactly as the conversion does
  for every width of \<^verbatim>\<open>int\<close>.
\<close>

type_synonym byte = "8 word"
type_synonym uint32 = "32 word"
type_synonym IP = "byte list"
type_synonym IPMask = "byte list"

record IPNet =
  IP :: IP
  Mask :: IPMask

datatype errno = EEXIST | EACCES | ENOENT | ENOSPC | EIO

datatype error =
    EOF
  | ErrUnexpectedEOF
  | PathError errno
  | ErrorString string
  | OutOfSubnet IP IPNet
  | SeedError

datatype panic = DivideByZero | InvalidArgumentToIntn

datatype 'a outcome = Value 'a | Error error | Panic panic

subsection \<open>The parts of package net and encoding/binary that the allocator calls\<close>

definition v4InV6Prefix :: "byte list" where
  "v4InV6Prefix = [0, 0, 0, 0, 0, 0, 0, 0, 0, 0, 0xff, 0xff]"

text \<open>\<^verbatim>\<open>IP.To4\<close>: a 4-byte address is itself, a v4-in-v6 address gives its last
  four bytes, anything else gives nil.\<close>

definition To4 :: "IP \<Rightarrow> IP" where
  "To4 ip =
     (if length ip = 4 then ip
      else if length ip = 16 \<and> take 12 ip = v4InV6Prefix then drop 12 ip
      else [])"

text \<open>\<^verbatim>\<open>binary.BigEndian.Uint32\<close> and \<^verbatim>\<open>PutUint32\<close>.\<close>

definition Uint32 :: "byte list \<Rightarrow> uint32" where
  "Uint32 b =
     ucast (b ! 3) OR push_bit 8 (ucast (b ! 2)) OR push_bit 16 (ucast (b ! 1))
       OR push_bit 24 (ucast (b ! 0))"

definition PutUint32 :: "uint32 \<Rightarrow> byte list" where
  "PutUint32 v = [ucast (drop_bit 24 v), ucast (drop_bit 16 v), ucast (drop_bit 8 v), ucast v]"

text \<open>\<^verbatim>\<open>binary.Read(bytes.NewReader(b), binary.BigEndian, &x)\<close> for a
  \<^verbatim>\<open>uint32\<close>: it reads exactly four bytes, and reports \<^verbatim>\<open>io.EOF\<close> on an empty
  reader and \<^verbatim>\<open>io.ErrUnexpectedEOF\<close> on a short one.\<close>

definition binary_Read :: "byte list \<Rightarrow> error + uint32" where
  "binary_Read b =
     (if 4 \<le> length b then Inr (Uint32 (take 4 b))
      else if b = [] then Inl EOF
      else Inl ErrUnexpectedEOF)"

text \<open>\<^verbatim>\<open>binary.Write(&buf, binary.BigEndian, &x)\<close> into a fresh buffer never fails.\<close>

definition binary_Write :: "uint32 \<Rightarrow> error + byte list" where
  "binary_Write v = Inr (PutUint32 v)"

text \<open>\<^verbatim>\<open>net.CIDRMask(ones, bits)\<close>.\<close>

fun CIDRMask_loop :: "nat \<Rightarrow> nat \<Rightarrow> byte list" where
  "CIDRMask_loop 0 n = []"
| "CIDRMask_loop (Suc l) n =
     (if 8 \<le> n then 0xff # CIDRMask_loop l (n - 8)
      else NOT (drop_bit n (0xff :: byte)) # CIDRMask_loop l 0)"

definition CIDRMask :: "int \<Rightarrow> int \<Rightarrow> IPMask" where
  "CIDRMask ones bits =
     (if bits \<noteq> 32 \<and> bits \<noteq> 128 then []
      else if ones < 0 \<or> bits < ones then []
      else CIDRMask_loop (nat (bits div 8)) (nat ones))"

text \<open>\<^verbatim>\<open>simpleMaskLength\<close>: the number of leading one bits of a mask made of ones
  followed by zeros, and \<open>-1\<close> for any other mask. The inner loop counts the leading
  ones of the first byte that is not \<open>0xff\<close>, shifting it left.\<close>

function count_ones :: "int \<Rightarrow> byte \<Rightarrow> int \<times> byte" where
  "count_ones n v = (if v AND 0x80 \<noteq> 0 then count_ones (n + 1) (push_bit 1 v) else (n, v))"
  by pat_completeness auto

termination
proof (relation "measure (\<lambda>(n, v). unat v)")
  show "wf (measure (\<lambda>(n, v). unat v))" by (rule wf_measure)
next
  fix n :: int and v :: byte
  assume a: "v AND 0x80 \<noteq> 0"
  have "(128::byte) = 2 ^ 7" by simp
  with a have "bit v 7" by (metis and_exp_eq_0_iff_not_bit)
  then have "bit (unat v) 7" by (simp add: bit_unsigned_iff)
  then have "odd (unat v div 2 ^ 7)" by (simp add: bit_iff_odd)
  then have ge: "128 \<le> unat v" by (cases "unat v < 128") auto
  have lt: "unat v < 256" using unsigned_less[of v] by simp
  have "unat (push_bit 1 v) = (2 * unat v) mod 256"
    by (simp add: push_bit_eq_mult unat_word_ariths mult.commute)
  also have "\<dots> = (2 * unat v - 256) mod 256"
    using ge by (simp add: le_mod_geq)
  also have "\<dots> = 2 * unat v - 256"
    using lt by (intro mod_less) linarith
  also have "\<dots> < unat v" using lt ge by linarith
  finally have "unat (push_bit 1 v) < unat v" .
  then show "((n + 1, push_bit 1 v), (n, v)) \<in> measure (\<lambda>(n, v). unat v)"
    by (simp only: in_measure prod.case)
qed

fun simpleMaskLength_loop :: "IPMask \<Rightarrow> int \<Rightarrow> int" where
  "simpleMaskLength_loop [] n = n"
| "simpleMaskLength_loop (v # rest) n =
     (if v = 0xff then simpleMaskLength_loop rest (n + 8)
      else (case count_ones n v of (n', v') \<Rightarrow>
        if v' \<noteq> 0 then - 1
        else if list_ex (\<lambda>b. b \<noteq> 0) rest then - 1
        else n'))"

definition simpleMaskLength :: "IPMask \<Rightarrow> int" where
  "simpleMaskLength m = simpleMaskLength_loop m 0"

text \<open>\<^verbatim>\<open>IPMask.Size\<close> returns the pair (ones, bits), and (0, 0) for a mask that is
  not in canonical form.\<close>

definition Size :: "IPMask \<Rightarrow> int \<times> int" where
  "Size m =
     (let ones = simpleMaskLength m; bits = int (length m) * 8 in
      if ones = - 1 then (0, 0) else (ones, bits))"

definition allFF :: "byte list \<Rightarrow> bool" where
  "allFF b = list_all (\<lambda>c. c = 0xff) b"

text \<open>\<^verbatim>\<open>IP.Mask\<close>: the address with the mask applied bytewise; nil when the lengths
  do not fit.\<close>

definition IP_Mask :: "IP \<Rightarrow> IPMask \<Rightarrow> IP" where
  "IP_Mask ip0 mask0 =
     (let m = (if length mask0 = 16 \<and> length ip0 = 4 \<and> allFF (take 12 mask0)
               then drop 12 mask0 else mask0);
          ip = (if length m = 4 \<and> length ip0 = 16 \<and> take 12 ip0 = v4InV6Prefix
                then drop 12 ip0 else ip0)
      in if length ip \<noteq> length m then []
         else map (\<lambda>i. ip ! i AND m ! i) [0..<length ip])"

definition networkNumberAndMask :: "IPNet \<Rightarrow> IP \<times> IPMask" where
  "networkNumberAndMask n =
     (let ip = (if To4 (IP n) = [] then IP n else To4 (IP n)) in
      if To4 (IP n) = [] \<and> length ip \<noteq> 16 then ([], [])
      else
        let m = Mask n in
        if length m = 4 then (if length ip \<noteq> 4 then ([], []) else (ip, m))
        else if length m = 16 then (if length ip = 4 then (ip, drop 12 m) else (ip, m))
        else ([], []))"

text \<open>\<^verbatim>\<open>IPNet.Contains\<close>.\<close>

definition Contains :: "IPNet \<Rightarrow> IP \<Rightarrow> bool" where
  "Contains n ip0 =
     (case networkNumberAndMask n of (nn, m) \<Rightarrow>
        let ip = (if To4 ip0 \<noteq> [] then To4 ip0 else ip0); l = length ip in
        if l \<noteq> length nn then False
        else list_all (\<lambda>i. nn ! i AND m ! i = ip ! i AND m ! i) [0..<l])"

subsection \<open>The random source and the storage directory\<close>

text \<open>
  The allocator's \<^verbatim>\<open>*rand.Rand\<close> is the sequence of its future raw draws.
  \<^verbatim>\<open>Intn(n)\<close> panics for \<open>n \<le> 0\<close> and otherwise returns a number in \<open>[0, n)\<close>
  and advances the source.
\<close>

type_synonym Rand = "nat \<Rightarrow> nat"

definition Intn :: "Rand \<Rightarrow> int \<Rightarrow> (int \<times> Rand) option" where
  "Intn r n = (if n \<le> 0 then None else Some (int (r 0) mod n, \<lambda>k. r (Suc k)))"

text \<open>
  The file system as the allocator sees it: the set of existing paths, the faults the
  operating system reports for a path when it is created or closed (a directory that is
  missing or not writable, a full disk), and the log of the exclusive-create calls made
  so far.
\<close>

record fs =
  entries :: "string set"
  create_fault :: "string \<Rightarrow> errno option"
  close_fault :: "string \<Rightarrow> errno option"
  creates :: "string list"

text \<open>\<^verbatim>\<open>os.OpenFile(file, os.O_CREATE|os.O_EXCL, 0600)\<close>: atomic; it fails with
  the fault of the path when there is one, with \<open>EEXIST\<close> when the path exists, and
  creates the path otherwise.\<close>

definition OpenFile :: "fs \<Rightarrow> string \<Rightarrow> (error + string) \<times> fs" where
  "OpenFile s file =
     (let s' = s\<lparr>creates := creates s @ [file]\<rparr> in
      case create_fault s file of
        Some e \<Rightarrow> (Inl (PathError e), s')
      | None \<Rightarrow>
          if file \<in> entries s then (Inl (PathError EEXIST), s')
          else (Inr file, s'\<lparr>entries := insert file (entries s)\<rparr>))"

definition Close :: "fs \<Rightarrow> string \<Rightarrow> error option" where
  "Close s f = map_option PathError (close_fault s f)"

text \<open>\<^verbatim>\<open>os.Remove\<close> of a marker.\<close>

definition Remove :: "fs \<Rightarrow> string \<Rightarrow> error option \<times> fs" where
  "Remove s file =
     (if file \<in> entries s then (None, s\<lparr>entries := entries s - {file}\<rparr>)
      else (Some (PathError ENOENT), s))"

text \<open>\<^verbatim>\<open>strconv.Itoa\<close>.\<close>

fun digits :: "nat \<Rightarrow> string" where
  "digits n =
     (if n < 10 then [''0123456789'' ! n]
      else digits (n div 10) @ [''0123456789'' ! (n mod 10)])"

declare digits.simps [simp del]

definition Itoa :: "int \<Rightarrow> string" where
  "Itoa i = (if i < 0 then CHR ''-'' # digits (nat (- i)) else digits (nat i))"

text \<open>\<^verbatim>\<open>filepath.Join\<close> of a directory and one element. The allocator only joins
  a directory with a name that has no separator; the cleaning of the directory's own
  spelling, which no property below depends on, is left out.\<close>

definition Join :: "string \<Rightarrow> string \<Rightarrow> string" where
  "Join dir name = (if dir = [] then name else dir @ ''/'' @ name)"

section \<open>The allocator\<close>

record Allocator =
  uidsDir :: string
  privateSubnet :: IPNet
  basePrivateIP :: IPNet
  availableSubnets :: uint32
  minUID :: int
  maxUID :: int
  rng :: Rand

text \<open>\<^verbatim>\<open>DefaultPrivateSubnet\<close>: 172.16.0.28 with the mask of a /12.\<close>

definition DefaultPrivateSubnet :: IPNet where
  "DefaultPrivateSubnet = \<lparr>IP = To4 [172, 16, 0, 28], Mask = CIDRMask 12 32\<rparr>"

text \<open>\<^verbatim>\<open>subnetsToSkip\<close>: bits [subnetSize, 30) of the base address. Go's shifts by
  32 or more give 0, as \<open>push_bit\<close> and \<open>drop_bit\<close> do on a 32-bit word; the shift
  count is \<^verbatim>\<open>uint32(subnetSize)\<close>.\<close>

definition subnetsToSkip :: "IP \<Rightarrow> int \<Rightarrow> error + uint32" where
  "subnetsToSkip baseIP subnetSize =
     (case binary_Read baseIP of
        Inl err \<Rightarrow> Inl err
      | Inr baseIPAsInt \<Rightarrow>
          let k = unat (word_of_int subnetSize :: uint32);
              toSkip = push_bit k baseIPAsInt;
              toSkip = drop_bit k toSkip
          in Inr (drop_bit 2 toSkip))"

text \<open>\<^verbatim>\<open>uint32(math.Pow(2, float64(e)))\<close> for an integer \<open>e \<le> 30\<close> (a mask size is
  never negative, and \<open>e\<close> is 30 minus a mask size): the power is exact for
  \<open>0 \<le> e\<close>, and for \<open>e < 0\<close> it lies in \<open>[0, 1)\<close> and the conversion truncates it
  to 0.\<close>

definition pow2_uint32 :: "int \<Rightarrow> uint32" where
  "pow2_uint32 e = (if 0 \<le> e then 2 ^ nat e else 0)"

text \<open>What \<^verbatim>\<open>NewAllocator\<close> gets from its surroundings: the outcome of
  \<^verbatim>\<open>os.MkdirAll\<close>, the seed read from \<^verbatim>\<open>crypto/rand\<close> (or the error of reading
  it), and the random source that \<^verbatim>\<open>rand.New(rand.NewSource(seed))\<close> builds.\<close>

record world =
  MkdirAll :: "string \<Rightarrow> error option"
  crand_Int :: "error + int"
  rand_New :: "int \<Rightarrow> Rand"

definition NewAllocator ::
  "world \<Rightarrow> string \<Rightarrow> IPNet \<Rightarrow> int \<Rightarrow> int \<Rightarrow> error + Allocator" where
  "NewAllocator w workDir privateSubnet0 minUID0 maxUID0 =
     (let uids = Join workDir ''uids'' in
      case MkdirAll w uids of
        Some err \<Rightarrow> Inl err
      | None \<Rightarrow>
     (case crand_Int w of
        Inl err \<Rightarrow> Inl err
      | Inr seed \<Rightarrow>
     (let subnetSize = fst (Size (Mask privateSubnet0));
          availableSubnets0 = pow2_uint32 (30 - subnetSize)
      in case subnetsToSkip (To4 (IP privateSubnet0)) subnetSize of
        Inl err \<Rightarrow> Inl err
      | Inr toSkip \<Rightarrow>
          let availableSubnets1 = availableSubnets0 - toSkip;
              baseIP = \<lparr>IP = To4 (IP privateSubnet0), Mask = CIDRMask 30 32\<rparr>;
              subnet = \<lparr>IP = To4 (IP_Mask (IP privateSubnet0) (Mask privateSubnet0)),
                        Mask = Mask privateSubnet0\<rparr>
          in Inr \<lparr>uidsDir = uids,
                  privateSubnet = subnet,
                  basePrivateIP = baseIP,
                  availableSubnets = availableSubnets1,
                  minUID = minUID0,
                  maxUID = maxUID0,
                  rng = rand_New w seed\<rparr>)))"

text \<open>\<^verbatim>\<open>privateNetForUID\<close>. The remainder \<^verbatim>\<open>%\<close> by a zero
  \<^verbatim>\<open>availableSubnets\<close> is a run-time panic.\<close>

definition privateNetForUID :: "Allocator \<Rightarrow> int \<Rightarrow> IPNet outcome" where
  "privateNetForUID a uid =
     (if availableSubnets a = 0 then Panic DivideByZero
      else
        let shift = (word_of_int (uid - minUID a) :: uint32) mod availableSubnets a in
        case binary_Read (To4 (IP (basePrivateIP a))) of
          Inl err \<Rightarrow> Error err
        | Inr asInt0 \<Rightarrow>
            let asInt1 = drop_bit 2 asInt0;
                asInt2 = asInt1 + shift;
                asInt3 = push_bit 2 asInt2
            in case binary_Write asInt3 of
                 Inl err \<Rightarrow> Error err
               | Inr buf \<Rightarrow>
                   let ip = buf in
                   if \<not> Contains (privateSubnet a) ip
                   then Error (OutOfSubnet ip (privateSubnet a))
                   else Value \<lparr>IP = ip, Mask = Mask (basePrivateIP a)\<rparr>)"

text \<open>One round of the probe loop of \<^verbatim>\<open>allocate\<close>: draw a candidate, try to create
  its marker exclusively; \<open>None\<close> stands for \<^verbatim>\<open>continue\<close>, \<open>Some\<close> for a
  \<^verbatim>\<open>return\<close>.\<close>

definition allocate_body ::
  "Allocator \<Rightarrow> int \<Rightarrow> fs \<Rightarrow> int outcome option \<times> Allocator \<times> fs" where
  "allocate_body a interval s =
     (case Intn (rng a) interval of
        None \<Rightarrow> (Some (Panic InvalidArgumentToIntn), a, s)
      | Some (k, r') \<Rightarrow>
          let a' = a\<lparr>rng := r'\<rparr>;
              n = k + minUID a;
              file = Join (uidsDir a) (Itoa n)
          in case OpenFile s file of
               (Inl err, s') \<Rightarrow> (None, a', s')
             | (Inr f, s') \<Rightarrow>
                 (case Close s' f of
                    Some err \<Rightarrow> (Some (Error err), a', s')
                  | None \<Rightarrow> (Some (Value n), a', s')))"

function allocate_loop ::
  "string \<Rightarrow> int \<Rightarrow> int \<Rightarrow> int \<Rightarrow> Allocator \<Rightarrow> fs \<Rightarrow> int outcome \<times> Allocator \<times> fs" where
  "allocate_loop numbersDir interval maxRetries i a s =
     (if i < maxRetries then
        (case allocate_body a interval s of
           (None, a', s') \<Rightarrow> allocate_loop numbersDir interval maxRetries (i + 1) a' s'
         | (Some res, a', s') \<Rightarrow> (res, a', s'))
      else (Error (ErrorString (''no free number available at '' @ numbersDir)), a, s))"
  by pat_completeness auto

termination
  by (relation "measure (\<lambda>(numbersDir, interval, maxRetries, i, a, s). nat (maxRetries - i))")
     auto

declare allocate_loop.simps [simp del]

definition allocate :: "Allocator \<Rightarrow> string \<Rightarrow> int \<Rightarrow> int \<Rightarrow> fs \<Rightarrow> int outcome \<times> Allocator \<times> fs" where
  "allocate a numbersDir min0 max0 s =
     (let interval = max0 - min0 + 1;
          maxRetries = 5 * interval
      in allocate_loop numbersDir interval maxRetries 0 a s)"

text \<open>The address that \<^verbatim>\<open>privateNetForUID\<close> derives from the anchor and the UID, before
  it checks that the supernet contains it.\<close>

definition derived_address :: "Allocator \<Rightarrow> int \<Rightarrow> IP" where
  "derived_address a uid =
     PutUint32 (push_bit 2 (drop_bit 2 (Uint32 (To4 (IP (basePrivateIP a))))
        + (word_of_int (uid - minUID a) :: uint32) mod availableSubnets a))"

definition ReserveUID :: "Allocator \<Rightarrow> fs \<Rightarrow> int outcome \<times> Allocator \<times> fs" where
  "ReserveUID a s = allocate a (uidsDir a) (minUID a) (maxUID a) s"

definition FreeUID :: "Allocator \<Rightarrow> int \<Rightarrow> fs \<Rightarrow> error option \<times> fs" where
  "FreeUID a uid s = Remove s (Join (uidsDir a) (Itoa uid))"

subsection \<open>Independent callers on one storage directory\<close>

text \<open>
  Several callers of \<^verbatim>\<open>ReserveUID\<close>, each with its own allocator (and so its own
  random source), work on one file system. The only operation of \<^verbatim>\<open>allocate\<close>
  that touches the shared directory is the exclusive create, which the operating system
  performs atomically, so a concurrent execution is an interleaving of rounds of the
  probe loop. A caller records the loop counter \<^verbatim>\<open>i\<close> and, once \<^verbatim>\<open>allocate\<close>
  has returned, what it returned. \<open>caller_step\<close> runs one round of the loop (or its
  exit) for one caller; \<open>run\<close> follows a schedule, a list of caller indices.
\<close>

record caller =
  alloc :: Allocator
  attempt :: int
  result :: "int outcome option"

definition fresh_caller :: "Allocator \<Rightarrow> caller" where
  "fresh_caller a = \<lparr>alloc = a, attempt = 0, result = None\<rparr>"

definition caller_step :: "caller \<Rightarrow> fs \<Rightarrow> caller \<times> fs" where
  "caller_step c s =
     (if result c \<noteq> None then (c, s)
      else
        let a = alloc c;
            interval = maxUID a - minUID a + 1;
            maxRetries = 5 * interval
        in if attempt c < maxRetries then
             (case allocate_body a interval s of
                (None, a', s') \<Rightarrow> (c\<lparr>alloc := a', attempt := attempt c + 1\<rparr>, s')
              | (Some res, a', s') \<Rightarrow> (c\<lparr>alloc := a', result := Some res\<rparr>, s'))
           else
             (c\<lparr>result :=
                  Some (Error (ErrorString (''no free number available at '' @ uidsDir a)))\<rparr>,
              s))"

fun run :: "nat list \<Rightarrow> caller list \<times> fs \<Rightarrow> caller list \<times> fs" where
  "run [] st = st"
| "run (j # sched) (cs, s) =
     (if j < length cs
      then (case caller_step (cs ! j) s of (c', s') \<Rightarrow> run sched (cs[j := c'], s'))
      else run sched (cs, s))"

subsection \<open>The subnet derivation as the specification words it\<close>

text \<open>
  The specification gives the derivation in arithmetic on numbers: the shift is
  \<open>(uid - minUID) mod availableSubnetCount\<close>; the anchor, read as an unsigned 32-bit
  number, is divided by 4, the shift is added, and the sum is multiplied by 4.
\<close>

definition spec_shift :: "int \<Rightarrow> int \<Rightarrow> int \<Rightarrow> int" where
  "spec_shift uid minUID0 availableSubnetCount = (uid - minUID0) mod availableSubnetCount"

definition spec_subnet_address :: "int \<Rightarrow> int \<Rightarrow> int" where
  "spec_subnet_address anchor shift = (anchor div 4 + shift) * 4"

definition spec_SubnetFor :: "Allocator \<Rightarrow> int \<Rightarrow> int" where
  "spec_SubnetFor a uid =
     spec_subnet_address (uint (Uint32 (IP (basePrivateIP a))))
       (spec_shift uid (minUID a) (uint (availableSubnets a)))"

subsection \<open>Example configurations\<close>

text \<open>A host where the directory can be created and the seed can be read, and whose
  random source keeps drawing the same raw number.\<close>

definition example_world :: world where
  "example_world = \<lparr>MkdirAll = (\<lambda>dir. None), crand_Int = Inr 42, rand_New = (\<lambda>seed k. 0)\<rparr>"

text \<open>An empty storage directory without faults, and one in which every create is
  refused for lack of permission.\<close>

definition empty_fs :: fs where
  "empty_fs = \<lparr>entries = {}, create_fault = (\<lambda>file. None), close_fault = (\<lambda>file. None),
               creates = []\<rparr>"

definition readonly_fs :: fs where
  "readonly_fs = \<lparr>entries = {}, create_fault = (\<lambda>file. Some EACCES),
                  close_fault = (\<lambda>file. None), creates = []\<rparr>"

text \<open>The allocators that \<^verbatim>\<open>NewAllocator\<close> builds on that host: for the default block
  172.16.0.28/12 with UIDs 0 to 3, with UIDs 0 to 1 and with the single UID 0, and for
  the block 10.0.0.0/32.\<close>

definition default_allocator :: Allocator where
  "default_allocator =
     \<lparr>uidsDir = ''/var/hsup/uids'',
      privateSubnet = \<lparr>IP = [172, 16, 0, 0], Mask = [255, 240, 0, 0]\<rparr>,
      basePrivateIP = \<lparr>IP = [172, 16, 0, 28], Mask = [255, 255, 255, 252]\<rparr>,
      availableSubnets = 262137,
      minUID = 0,
      maxUID = 3,
      rng = (\<lambda>k. 0)\<rparr>"

definition two_uid_allocator :: Allocator where
  "two_uid_allocator = default_allocator\<lparr>maxUID := 1\<rparr>"

definition one_uid_allocator :: Allocator where
  "one_uid_allocator = default_allocator\<lparr>maxUID := 0\<rparr>"

definition host_block_allocator :: Allocator where
  "host_block_allocator =
     \<lparr>uidsDir = ''/var/hsup/uids'',
      privateSubnet = \<lparr>IP = [10, 0, 0, 0], Mask = [255, 255, 255, 255]\<rparr>,
      basePrivateIP = \<lparr>IP = [10, 0, 0, 0], Mask = [255, 255, 255, 252]\<rparr>,
      availableSubnets = 0,
      minUID = 0,
      maxUID = 3,
      rng = (\<lambda>k. 0)\<rparr>"

text \<open>The allocator that \<^verbatim>\<open>NewAllocator\<close> builds from the address 10.0.0.9 with the
  mask 255.0.255.0, which is not the mask of a prefix.\<close>

definition striped_mask_allocator :: Allocator where
  "striped_mask_allocator =
     \<lparr>uidsDir = ''/var/hsup/uids'',
      privateSubnet = \<lparr>IP = [10, 0, 0, 0], Mask = [255, 0, 255, 0]\<rparr>,
      basePrivateIP = \<lparr>IP = [10, 0, 0, 9], Mask = [255, 255, 255, 252]\<rparr>,
      availableSubnets = 1031798782,
      minUID = 0,
      maxUID = 3,
      rng = (\<lambda>k. 0)\<rparr>"

text \<open>A storage directory in which the marker of UID 0 exists.\<close>

definition full_fs :: fs where
  "full_fs = empty_fs\<lparr>entries := {''/var/hsup/uids/0''}\<rparr>"

section \<open>Bytes and words\<close>

lemma length_PutUint32: "length (PutUint32 v) = 4"
  by (simp add: PutUint32_def)

lemma Uint32_PutUint32: "Uint32 (PutUint32 v) = v"
proof (rule bit_word_eqI)
  fix n assume "n < LENGTH(32)"
  then have "n < 8 \<or> (8 \<le> n \<and> n < 16) \<or> (16 \<le> n \<and> n < 24) \<or> (24 \<le> n \<and> n < 32)"
    by auto
  then show "bit (Uint32 (PutUint32 v)) n = bit v n"
    unfolding Uint32_def PutUint32_def
    by (elim disjE) (auto simp add: bit_simps)
qed

lemma list4: "length b = 4 \<Longrightarrow> b = [b ! 0, b ! 1, b ! 2, b ! 3]"
  by (cases b; simp; cases "tl b"; simp; cases "tl (tl b)"; simp; cases "tl (tl (tl b))"; simp)

lemma drop_bit_push_bit_word: "drop_bit p (push_bit p (x::uint32)) = take_bit (32 - p) x"
  by (rule bit_word_eqI) (auto simp add: bit_simps)


lemma PutUint32_Uint32: "length b = 4 \<Longrightarrow> PutUint32 (Uint32 b) = b"
proof -
  assume "length b = 4"
  then obtain b0 b1 b2 b3 where b: "b = [b0, b1, b2, b3]"
    using list4 by blast
  have 0: "ucast (drop_bit 24 (Uint32 [b0, b1, b2, b3])) = b0"
    unfolding Uint32_def by (rule bit_word_eqI) (auto simp add: bit_simps dest: bit_imp_le_length)
  have 1: "ucast (drop_bit 16 (Uint32 [b0, b1, b2, b3])) = b1"
    unfolding Uint32_def by (rule bit_word_eqI) (auto simp add: bit_simps dest: bit_imp_le_length)
  have 2: "ucast (drop_bit 8 (Uint32 [b0, b1, b2, b3])) = b2"
    unfolding Uint32_def by (rule bit_word_eqI) (auto simp add: bit_simps dest: bit_imp_le_length)
  have 3: "ucast (Uint32 [b0, b1, b2, b3]) = b3"
    unfolding Uint32_def by (rule bit_word_eqI) (auto simp add: bit_simps dest: bit_imp_le_length)
  show ?thesis unfolding b PutUint32_def using 0 1 2 3 by simp
qed

lemma PutUint32_and_nth:
  "i < 4 \<Longrightarrow> PutUint32 a ! i AND PutUint32 m ! i = PutUint32 (a AND m) ! i"
proof -
  assume "i < 4"
  then have "i = 0 \<or> i = 1 \<or> i = 2 \<or> i = 3" by auto
  then show ?thesis
    by (elim disjE) (simp_all add: PutUint32_def drop_bit_and unsigned_and_eq)
qed

lemma prefix_cases: "0 \<le> (p::int) \<Longrightarrow> p \<le> 32 \<Longrightarrow> p = 0 \<or> p = 1 \<or> p = 2 \<or> p = 3 \<or> p = 4 \<or> p = 5 \<or> p = 6 \<or> p = 7 \<or> p = 8 \<or> p = 9 \<or> p = 10 \<or> p = 11 \<or> p = 12 \<or> p = 13 \<or> p = 14 \<or> p = 15 \<or> p = 16 \<or> p = 17 \<or> p = 18 \<or> p = 19 \<or> p = 20 \<or> p = 21 \<or> p = 22 \<or> p = 23 \<or> p = 24 \<or> p = 25 \<or> p = 26 \<or> p = 27 \<or> p = 28 \<or> p = 29 \<or> p = 30 \<or> p = 31 \<or> p = 32"
  by presburger


lemma CIDRMask_word:
  "0 \<le> p \<Longrightarrow> p \<le> 32 \<Longrightarrow> CIDRMask p 32 = PutUint32 (NOT (mask (32 - nat p)))"
  by (drule (1) prefix_cases) (elim disjE; hypsubst; code_simp)

lemma Size_CIDRMask: "0 \<le> p \<Longrightarrow> p \<le> 32 \<Longrightarrow> Size (CIDRMask p 32) = (p, 32)"
  by (drule (1) prefix_cases) (elim disjE; hypsubst; code_simp)

lemma block_arith:
  fixes X S k :: nat
  assumes k: "2 \<le> k" "k \<le> 32" and X: "X < 2 ^ 32"
    and S: "S < 2 ^ (k - 2) - (X mod 2 ^ k) div 4"
  shows "X div 4 + S < 2 ^ 30" and "(4 * (X div 4 + S)) div 2 ^ k = X div 2 ^ k"
proof -
  define K where "K = (2::nat) ^ (k - 2)"
  define q where "q = X div (4 * K)"
  define r where "r = X mod (4 * K)"
  have K0: "0 < K" by (simp add: K_def)
  have pk: "(2::nat) ^ k = 4 * K"
  proof -
    have "4 * K = (2::nat) ^ 2 * 2 ^ (k - 2)" by (simp add: K_def)
    also have "\<dots> = 2 ^ (2 + (k - 2))" by (simp only: power_add)
    also have "2 + (k - 2) = k" using k by simp
    finally show ?thesis by simp
  qed
  have Xqr: "X = q * (4 * K) + r" unfolding q_def r_def by (rule div_mult_mod_eq[symmetric])
  have X4: "X div 4 = q * K + r div 4"
  proof -
    have "X = (q * K) * 4 + r" using Xqr by (simp add: mult.assoc mult.commute)
    then have "X div 4 = ((q * K) * 4 + r) div 4" by simp
    also have "\<dots> = q * K + r div 4" by (simp add: div_mult_self3)
    finally show ?thesis .
  qed
  have S': "r div 4 + S < K" using S by (simp add: pk r_def K_def[symmetric])
  have q: "q < 2 ^ (32 - k)"
  proof -
    have "(4 * K) * 2 ^ (32 - k) = (2::nat) ^ (k + (32 - k))" by (simp only: power_add pk)
    also have "k + (32 - k) = 32" using k by simp
    finally have "X < (4 * K) * 2 ^ (32 - k)" using X by simp
    then show ?thesis unfolding q_def by (simp add: less_mult_imp_div_less mult.commute)
  qed
  have K30: "2 ^ (32 - k) * K = (2::nat) ^ 30"
  proof -
    have "(2::nat) ^ (32 - k) * 2 ^ (k - 2) = 2 ^ ((32 - k) + (k - 2))" by (simp only: power_add)
    also have "(32 - k) + (k - 2) = 30" using k by simp
    finally show ?thesis by (simp add: K_def)
  qed
  have "X div 4 + S < q * K + K" using X4 S' by simp
  also have "\<dots> = (q + 1) * K" by simp
  also have "\<dots> \<le> 2 ^ (32 - k) * K" using q by (intro mult_le_mono1) simp
  finally show "X div 4 + S < 2 ^ 30" using K30 by simp
  have "(4 * (X div 4 + S)) div (4 * K) = (X div 4 + S) div K" by (rule div_mult_mult1) simp
  also have "\<dots> = (q * K + (r div 4 + S)) div K" using X4 by (simp add: add.assoc)
  also have "\<dots> = q" using S' K0 by simp
  finally show "(4 * (X div 4 + S)) div 2 ^ k = X div 2 ^ k" unfolding pk q_def .
qed



lemma unat_pow2: "n < 32 \<Longrightarrow> unat ((2::uint32) ^ n) = 2 ^ n"
proof -
  assume n: "n < 32"
  have "(2::uint32) ^ n = word_of_nat (2 ^ n)" by simp
  then have "unat ((2::uint32) ^ n) = 2 ^ n mod 2 ^ 32" by (simp only: unat_of_nat) simp
  also have "\<dots> = 2 ^ n"
  proof -
    have "(2::nat) ^ n < 2 ^ 32" using n by (intro power_strict_increasing) simp_all
    then show ?thesis by (rule mod_less)
  qed
  finally show ?thesis .
qed

lemma unat_take_bit_u32: "unat (take_bit k (x::uint32)) = unat x mod 2 ^ k"
  by (simp only: unsigned_take_bit_eq) (simp only: take_bit_eq_mod)

lemma unat_drop_bit_u32: "unat (drop_bit k (x::uint32)) = unat x div 2 ^ k"
  by (simp only: unat_drop_bit_eq) (simp only: drop_bit_eq_div)

lemma unat_push_bit2: "unat w < 2 ^ 30 \<Longrightarrow> unat (push_bit 2 (w::uint32)) = 4 * unat w"
proof -
  assume w: "unat w < 2 ^ 30"
  have "unat (push_bit 2 w) = (unat w * 4) mod 2 ^ 32"
    by (simp add: push_bit_eq_mult unat_word_ariths)
  also have "\<dots> = unat w * 4" using w by (intro mod_less) simp
  finally show ?thesis by simp
qed

lemma block_word:
  fixes x s :: uint32 and k :: nat
  assumes k: "2 \<le> k" "k \<le> 32"
  defines "avail \<equiv> (2::uint32) ^ (k - 2) - drop_bit 2 (take_bit k x)"
  shows unat_avail: "unat avail = 2 ^ (k - 2) - (unat x mod 2 ^ k) div 4"
    and avail_pos: "avail \<noteq> 0"
    and block_sum: "s < avail \<Longrightarrow> unat (drop_bit 2 x + s) = unat x div 4 + unat s"
    and block_sum_less: "s < avail \<Longrightarrow> unat x div 4 + unat s < 2 ^ 30"
    and block_addr: "s < avail \<Longrightarrow> unat (push_bit 2 (drop_bit 2 x + s)) = 4 * (unat x div 4 + unat s)"
    and block_prefix: "s < avail \<Longrightarrow> drop_bit k (push_bit 2 (drop_bit 2 x + s)) = drop_bit k x"
proof -
  have r: "(unat x mod 2 ^ k) div 4 < 2 ^ (k - 2)"
  proof -
    have "(4::nat) * 2 ^ (k - 2) = 2 ^ (2 + (k - 2))" by (simp only: power_add) simp
    also have "2 + (k - 2) = k" using k by simp
    finally have "unat x mod 2 ^ k < 4 * 2 ^ (k - 2)" by simp
    then show ?thesis by (simp add: less_mult_imp_div_less mult.commute)
  qed
  have p2: "unat ((2::uint32) ^ (k - 2)) = 2 ^ (k - 2)" using k by (intro unat_pow2) simp
  have ts: "unat (drop_bit 2 (take_bit k x)) = (unat x mod 2 ^ k) div 4"
    by (simp add: unat_drop_bit_u32 unat_take_bit_u32)
  have le: "drop_bit 2 (take_bit k x) \<le> (2::uint32) ^ (k - 2)"
    using r by (simp only: word_le_nat_alt p2 ts)
  show ua: "unat avail = 2 ^ (k - 2) - (unat x mod 2 ^ k) div 4"
    unfolding avail_def using le by (simp only: unat_sub p2 ts)
  show "avail \<noteq> 0"
  proof
    assume "avail = 0"
    then have "unat avail = 0" by simp
    with ua r show False by simp
  qed
  assume s: "s < avail"
  then have S: "unat s < 2 ^ (k - 2) - (unat x mod 2 ^ k) div 4"
    by (simp only: word_less_nat_alt ua)
  have X: "unat x < 2 ^ 32" using unsigned_less[of x] by simp
  from block_arith[OF k X S]
  have lt: "unat x div 4 + unat s < 2 ^ 30"
    and pre: "(4 * (unat x div 4 + unat s)) div 2 ^ k = unat x div 2 ^ k" by auto
  show "unat x div 4 + unat s < 2 ^ 30" by (rule lt)
  have d2: "unat (drop_bit 2 x) = unat x div 4" by (simp add: unat_drop_bit_u32)
  have "unat (drop_bit 2 x) + unat s < 2 ^ LENGTH(32)"
    using lt unfolding d2 by simp
  then have "unat (drop_bit 2 x + s) = unat (drop_bit 2 x) + unat s"
    by (simp only: unat_add_lem)
  then show sum: "unat (drop_bit 2 x + s) = unat x div 4 + unat s" by (simp only: d2)
  have "unat (drop_bit 2 x + s) < 2 ^ 30" using lt by (simp only: sum)
  then have "unat (push_bit 2 (drop_bit 2 x + s)) = 4 * unat (drop_bit 2 x + s)"
    by (rule unat_push_bit2)
  then show addr: "unat (push_bit 2 (drop_bit 2 x + s)) = 4 * (unat x div 4 + unat s)"
    by (simp only: sum)
  show "drop_bit k (push_bit 2 (drop_bit 2 x + s)) = drop_bit k x"
    by (simp only: word_unat_eq_iff unat_drop_bit_u32 addr pre)
qed


lemma and_not_mask_cong:
  fixes x y :: uint32
  assumes "drop_bit k x = drop_bit k y"
  shows "x AND NOT (mask k) = y AND NOT (mask k)"
proof (rule bit_word_eqI)
  fix n assume "n < LENGTH(32)"
  show "bit (x AND NOT (mask k)) n = bit (y AND NOT (mask k)) n"
  proof (cases "k \<le> n")
    case True
    then obtain j where n: "n = k + j" using le_Suc_ex by blast
    have "bit x (k + j) = bit (drop_bit k x) j" by (simp add: bit_drop_bit_eq)
    also have "\<dots> = bit (drop_bit k y) j" using assms by simp
    also have "\<dots> = bit y (k + j)" by (simp add: bit_drop_bit_eq)
    finally show ?thesis unfolding n by (simp add: bit_simps)
  next
    case False
    then show ?thesis by (simp add: bit_simps)
  qed
qed

lemma PutUint32_inj: "PutUint32 a = PutUint32 b \<Longrightarrow> a = b"
  by (metis Uint32_PutUint32)

lemma To4_PutUint32: "To4 (PutUint32 v) = PutUint32 v"
  by (simp add: To4_def length_PutUint32)

lemma PutUint32_neq_Nil: "PutUint32 v \<noteq> []"
  by (simp add: PutUint32_def)

lemma Contains_word:
  "Contains \<lparr>IP = PutUint32 n, Mask = PutUint32 M\<rparr> (PutUint32 y) \<longleftrightarrow> n AND M = y AND M"
proof -
  have nm: "networkNumberAndMask \<lparr>IP = PutUint32 n, Mask = PutUint32 M\<rparr> = (PutUint32 n, PutUint32 M)"
    by (simp add: networkNumberAndMask_def To4_PutUint32 length_PutUint32 PutUint32_neq_Nil Let_def)
  have "Contains \<lparr>IP = PutUint32 n, Mask = PutUint32 M\<rparr> (PutUint32 y) \<longleftrightarrow>
        (\<forall>i<4. PutUint32 n ! i AND PutUint32 M ! i = PutUint32 y ! i AND PutUint32 M ! i)"
    unfolding Contains_def nm
    by (simp add: To4_PutUint32 length_PutUint32 PutUint32_neq_Nil Let_def list_all_iff Ball_def)
  also have "\<dots> \<longleftrightarrow> (\<forall>i<4. PutUint32 (n AND M) ! i = PutUint32 (y AND M) ! i)"
    by (simp add: PutUint32_and_nth)
  also have "\<dots> \<longleftrightarrow> PutUint32 (n AND M) = PutUint32 (y AND M)"
    by (simp add: list_eq_iff_nth_eq length_PutUint32)
  also have "\<dots> \<longleftrightarrow> n AND M = y AND M"
    using PutUint32_inj by auto
  finally show ?thesis .
qed

lemma To4_cases: "To4 ip \<noteq> [] \<Longrightarrow> length (To4 ip) = 4"
  by (auto simp add: To4_def split: if_splits)

lemma To4_idem: "To4 (To4 ip) = To4 ip"
  by (auto simp add: To4_def split: if_splits)

lemma length_CIDRMask: "0 \<le> p \<Longrightarrow> p \<le> 32 \<Longrightarrow> length (CIDRMask p 32) = 4"
  by (simp add: CIDRMask_word length_PutUint32)

lemma map_and_PutUint32:
  "map (\<lambda>i. PutUint32 a ! i AND PutUint32 m ! i) [0..<4] = PutUint32 (a AND m)"
  by (simp add: list_eq_iff_nth_eq length_PutUint32 PutUint32_and_nth)

lemma IP_Mask_ipv4:
  assumes ip: "To4 ip \<noteq> []"
  shows "IP_Mask ip (PutUint32 M) = PutUint32 (Uint32 (To4 ip) AND M)"
proof -
  have l4: "length (To4 ip) = 4" using ip by (rule To4_cases)
  have sel: "(if length (PutUint32 M) = 4 \<and> length ip = 16 \<and> take 12 ip = v4InV6Prefix
              then drop 12 ip else ip) = To4 ip"
    using ip by (auto simp add: To4_def length_PutUint32 split: if_splits)
  have "IP_Mask ip (PutUint32 M) = map (\<lambda>i. To4 ip ! i AND PutUint32 M ! i) [0..<4]"
    unfolding IP_Mask_def Let_def length_PutUint32
    using sel l4 by (simp add: length_PutUint32)
  also have "To4 ip = PutUint32 (Uint32 (To4 ip))" using l4 by (simp add: PutUint32_Uint32)
  finally show ?thesis by (simp only: map_and_PutUint32)
qed

lemma unat_word_of_int_small: "0 \<le> p \<Longrightarrow> p \<le> 32 \<Longrightarrow> unat (word_of_int p :: uint32) = nat p"
  by (drule (1) prefix_cases) (elim disjE; hypsubst; simp)

lemma binary_Read_To4: "To4 ip \<noteq> [] \<Longrightarrow> binary_Read (To4 ip) = Inr (Uint32 (To4 ip))"
  by (frule To4_cases) (simp add: binary_Read_def)

lemma binary_Read_Nil: "binary_Read [] = Inl EOF"
  by (simp add: binary_Read_def)

lemma NewAllocator_Inr:
  assumes "NewAllocator w workDir net mn mx = Inr a"
  shows "MkdirAll w (Join workDir ''uids'') = None"
    and "\<exists>seed. crand_Int w = Inr seed \<and> rng a = rand_New w seed"
    and "To4 (IP net) \<noteq> []"
    and "uidsDir a = Join workDir ''uids''"
    and "minUID a = mn" and "maxUID a = mx"
    and "basePrivateIP a = \<lparr>IP = To4 (IP net), Mask = CIDRMask 30 32\<rparr>"
    and "privateSubnet a = \<lparr>IP = To4 (IP_Mask (IP net) (Mask net)), Mask = Mask net\<rparr>"
    and "availableSubnets a =
           pow2_uint32 (30 - fst (Size (Mask net)))
           - drop_bit 2 (drop_bit (unat (word_of_int (fst (Size (Mask net))) :: uint32))
               (push_bit (unat (word_of_int (fst (Size (Mask net))) :: uint32))
                  (Uint32 (To4 (IP net)))))"
proof -
  have nz: "To4 (IP net) \<noteq> []"
    using assms
    by (auto simp add: NewAllocator_def subnetsToSkip_def binary_Read_Nil Let_def
             split: option.splits sum.splits)
  show "To4 (IP net) \<noteq> []" by (rule nz)
  note rd = binary_Read_To4[OF nz]
  show "MkdirAll w (Join workDir ''uids'') = None"
    using assms by (auto simp add: NewAllocator_def Let_def split: option.splits)
  from assms show "\<exists>seed. crand_Int w = Inr seed \<and> rng a = rand_New w seed"
    by (auto simp add: NewAllocator_def subnetsToSkip_def rd Let_def
             split: option.splits sum.splits)
  from assms show "uidsDir a = Join workDir ''uids''"
    by (auto simp add: NewAllocator_def subnetsToSkip_def rd Let_def
             split: option.splits sum.splits)
  from assms show "minUID a = mn"
    by (auto simp add: NewAllocator_def subnetsToSkip_def rd Let_def
             split: option.splits sum.splits)
  from assms show "maxUID a = mx"
    by (auto simp add: NewAllocator_def subnetsToSkip_def rd Let_def
             split: option.splits sum.splits)
  from assms show "basePrivateIP a = \<lparr>IP = To4 (IP net), Mask = CIDRMask 30 32\<rparr>"
    by (auto simp add: NewAllocator_def subnetsToSkip_def rd Let_def
             split: option.splits sum.splits)
  from assms show "privateSubnet a = \<lparr>IP = To4 (IP_Mask (IP net) (Mask net)), Mask = Mask net\<rparr>"
    by (auto simp add: NewAllocator_def subnetsToSkip_def rd Let_def
             split: option.splits sum.splits)
  from assms show "availableSubnets a =
           pow2_uint32 (30 - fst (Size (Mask net)))
           - drop_bit 2 (drop_bit (unat (word_of_int (fst (Size (Mask net))) :: uint32))
               (push_bit (unat (word_of_int (fst (Size (Mask net))) :: uint32))
                  (Uint32 (To4 (IP net)))))"
    by (auto simp add: NewAllocator_def subnetsToSkip_def rd Let_def
             split: option.splits sum.splits)
qed

lemma NewAllocator_succeeds:
  assumes "MkdirAll w (Join workDir ''uids'') = None" and "crand_Int w = Inr seed"
    and "To4 (IP net) \<noteq> []"
  shows "\<exists>a. NewAllocator w workDir net mn mx = Inr a"
  using assms
  by (simp add: NewAllocator_def subnetsToSkip_def binary_Read_To4 Let_def)

lemma drop_bit2_take_bit_small: "k < 3 \<Longrightarrow> drop_bit 2 (take_bit k (x::uint32)) = 0"
  by (rule bit_word_eqI) (auto simp add: bit_simps)

lemma NewAllocator_ipv4:
  assumes new: "NewAllocator w workDir net mn mx = Inr a"
    and m: "Mask net = CIDRMask p 32" and p: "0 \<le> p" "p \<le> 32"
  shows "basePrivateIP a = \<lparr>IP = PutUint32 (Uint32 (To4 (IP net))), Mask = CIDRMask 30 32\<rparr>"
    and "privateSubnet a =
           \<lparr>IP = PutUint32 (Uint32 (To4 (IP net)) AND NOT (mask (32 - nat p))),
            Mask = PutUint32 (NOT (mask (32 - nat p)))\<rparr>"
    and "availableSubnets a =
           pow2_uint32 (30 - p) - drop_bit 2 (take_bit (32 - nat p) (Uint32 (To4 (IP net))))"
proof -
  note f = NewAllocator_Inr[OF new]
  have nz: "To4 (IP net) \<noteq> []" by (rule f(3))
  have l4: "length (To4 (IP net)) = 4" using nz by (rule To4_cases)
  show "basePrivateIP a = \<lparr>IP = PutUint32 (Uint32 (To4 (IP net))), Mask = CIDRMask 30 32\<rparr>"
    using f(7) l4 by (simp add: PutUint32_Uint32)
  have mw: "Mask net = PutUint32 (NOT (mask (32 - nat p)))"
    using m p by (simp add: CIDRMask_word)
  show "privateSubnet a =
           \<lparr>IP = PutUint32 (Uint32 (To4 (IP net)) AND NOT (mask (32 - nat p))),
            Mask = PutUint32 (NOT (mask (32 - nat p)))\<rparr>"
    using f(8) by (simp add: mw IP_Mask_ipv4[OF nz] To4_PutUint32)
  have sz: "fst (Size (Mask net)) = p" using m p by (simp add: Size_CIDRMask)
  show "availableSubnets a =
           pow2_uint32 (30 - p) - drop_bit 2 (take_bit (32 - nat p) (Uint32 (To4 (IP net))))"
    using f(9) p by (simp add: sz unat_word_of_int_small drop_bit_push_bit_word)
qed

lemma availableSubnets_large_prefix:
  assumes new: "NewAllocator w workDir net mn mx = Inr a"
    and m: "Mask net = CIDRMask p 32" and p: "30 < p" "p \<le> 32"
  shows "availableSubnets a = 0"
proof -
  have "availableSubnets a =
           pow2_uint32 (30 - p) - drop_bit 2 (take_bit (32 - nat p) (Uint32 (To4 (IP net))))"
    using NewAllocator_ipv4(3)[OF new m] p by simp
  moreover have "pow2_uint32 (30 - p) = 0" using p by (simp add: pow2_uint32_def)
  moreover have "drop_bit 2 (take_bit (32 - nat p) (Uint32 (To4 (IP net)))) = 0"
    using p by (intro drop_bit2_take_bit_small) linarith
  ultimately show ?thesis by simp
qed

lemma availableSubnets_ipv4:
  assumes new: "NewAllocator w workDir net mn mx = Inr a"
    and m: "Mask net = CIDRMask p 32" and p: "0 \<le> p" "p \<le> 30"
  shows "availableSubnets a =
           2 ^ (32 - nat p - 2) - drop_bit 2 (take_bit (32 - nat p) (Uint32 (To4 (IP net))))"
proof -
  have "nat (30 - p) = 32 - nat p - 2" using p by linarith
  then have "pow2_uint32 (30 - p) = 2 ^ (32 - nat p - 2)"
    using p by (simp add: pow2_uint32_def)
  then show ?thesis using NewAllocator_ipv4(3)[OF new m] p by simp
qed

lemma privateNetForUID_ipv4:
  assumes new: "NewAllocator w workDir net mn mx = Inr a"
    and m: "Mask net = CIDRMask p 32" and p: "0 \<le> p" "p \<le> 30"
  shows "privateNetForUID a uid =
           Value \<lparr>IP = PutUint32 (push_bit 2 (drop_bit 2 (Uint32 (To4 (IP net)))
                        + (word_of_int (uid - mn) :: uint32) mod availableSubnets a)),
                  Mask = CIDRMask 30 32\<rparr>"
proof -
  define x where "x = Uint32 (To4 (IP net))"
  define k where "k = 32 - nat p"
  define s where "s = (word_of_int (uid - mn) :: uint32) mod availableSubnets a"
  have k: "2 \<le> k" "k \<le> 32" using p by (simp_all add: k_def)
  have av: "availableSubnets a = 2 ^ (k - 2) - drop_bit 2 (take_bit k x)"
    using availableSubnets_ipv4[OF new m p] by (simp add: k_def x_def)
  have nz: "availableSubnets a \<noteq> 0" unfolding av by (rule avail_pos[OF k])
  have s: "s < 2 ^ (k - 2) - drop_bit 2 (take_bit k x)"
    unfolding s_def av[symmetric] using nz by (simp add: word_mod_less_divisor word_neq_0_conv[symmetric])
  have "drop_bit k (push_bit 2 (drop_bit 2 x + s)) = drop_bit k x"
    by (rule block_prefix[OF k s])
  then have c: "x AND NOT (mask k) = push_bit 2 (drop_bit 2 x + s) AND NOT (mask k)"
    by (intro and_not_mask_cong) simp
  note b = NewAllocator_ipv4[OF new m] 
  have base: "basePrivateIP a = \<lparr>IP = PutUint32 x, Mask = CIDRMask 30 32\<rparr>"
    using b(1) p by (simp add: x_def)
  have sub: "privateSubnet a = \<lparr>IP = PutUint32 (x AND NOT (mask k)), Mask = PutUint32 (NOT (mask k))\<rparr>"
    using b(2) p by (simp add: x_def k_def)
  have cont: "Contains (privateSubnet a) (PutUint32 (push_bit 2 (drop_bit 2 x + s)))"
    unfolding sub Contains_word using c by (simp add: and.assoc)
  have mn: "minUID a = mn" by (rule NewAllocator_Inr(5)[OF new])
  show ?thesis
    unfolding privateNetForUID_def
    using nz cont[unfolded s_def]
    by (simp add: base To4_PutUint32 binary_Read_def length_PutUint32 binary_Write_def
        Uint32_PutUint32 Let_def mn x_def[symmetric])
qed

section \<open>The derived address as a number\<close>

lemma uint_word_of_int_u32: "uint (word_of_int d :: uint32) = d mod 2 ^ 32"
  by (simp add: uint_word_of_int)

lemma word_of_int_inj_u32:
  assumes "0 \<le> A" "A < 2 ^ 32" "0 \<le> B" "B < 2 ^ 32"
    and "(word_of_int A :: uint32) = word_of_int B"
  shows "A = B"
proof -
  have "uint (word_of_int A :: uint32) = uint (word_of_int B :: uint32)" using assms(5) by simp
  then have "A mod 2 ^ 32 = B mod 2 ^ 32" by (simp only: uint_word_of_int_u32)
  then show ?thesis using assms(1-4) by simp
qed

text \<open>The derived address as a number, for an allocator built from an IPv4 block with a
  prefix length of at most 30: no step of the derivation wraps around.\<close>

lemma privateNetForUID_numeric:
  fixes uid :: int
  assumes new: "NewAllocator w workDir net mn mx = Inr a"
    and m: "Mask net = CIDRMask p 32" and p: "0 \<le> p" "p \<le> 30"
  defines "N \<equiv> (uint (Uint32 (To4 (IP net))) div 4
                 + ((uid - mn) mod 2 ^ 32) mod uint (availableSubnets a)) * 4"
  shows "privateNetForUID a uid = Value \<lparr>IP = PutUint32 (word_of_int N), Mask = CIDRMask 30 32\<rparr>"
    and "0 \<le> N" and "N < 2 ^ 32"
    and "0 < uint (availableSubnets a)"
proof -
  define x where "x = Uint32 (To4 (IP net))"
  define k where "k = 32 - nat p"
  define s where "s = (word_of_int (uid - mn) :: uint32) mod availableSubnets a"
  define y where "y = push_bit 2 (drop_bit 2 x + s)"
  have k: "2 \<le> k" "k \<le> 32" using p by (simp_all add: k_def)
  have av: "availableSubnets a = 2 ^ (k - 2) - drop_bit 2 (take_bit k x)"
    using availableSubnets_ipv4[OF new m p] by (simp add: k_def x_def)
  have nz: "availableSubnets a \<noteq> 0" unfolding av by (rule avail_pos[OF k])
  then show pos: "0 < uint (availableSubnets a)"
    by (simp add: word_neq_0_conv word_less_def)
  have s: "s < 2 ^ (k - 2) - drop_bit 2 (take_bit k x)"
    unfolding s_def av[symmetric] using nz
    by (simp add: word_mod_less_divisor word_neq_0_conv[symmetric])
  have ny: "unat y = 4 * (unat x div 4 + unat s)" unfolding y_def by (rule block_addr[OF k s])
  have "uint y = int (unat y)" by (rule uint_nat)
  also have "\<dots> = int (4 * (unat x div 4 + unat s))" by (simp only: ny)
  also have "\<dots> = (int (unat x) div 4 + int (unat s)) * 4"
    by (simp only: of_nat_mult of_nat_add zdiv_int of_nat_numeral mult.commute)
  also have "\<dots> = (uint x div 4 + uint s) * 4" by (simp only: uint_nat)
  finally have uy: "uint y = (uint x div 4 + uint s) * 4" .
  have us: "uint s = ((uid - mn) mod 2 ^ 32) mod uint (availableSubnets a)"
    unfolding s_def by (simp only: uint_mod uint_word_of_int_u32)
  have N: "uint y = N" unfolding N_def uy us x_def ..
  have "0 \<le> uint y" by simp
  then show "0 \<le> N" by (simp only: N)
  have "uint y < 2 ^ 32" using uint_lt2p[of y] by simp
  then show "N < 2 ^ 32" by (simp only: N)
  have "y = word_of_int (uint y)" by simp
  then have yN: "y = word_of_int N" by (simp only: N)
  show "privateNetForUID a uid = Value \<lparr>IP = PutUint32 (word_of_int N), Mask = CIDRMask 30 32\<rparr>"
    using privateNetForUID_ipv4[OF new m p, of uid]
    unfolding x_def[symmetric] s_def[symmetric] y_def[symmetric] yN .
qed

lemma in_range_mod: "(0::int) \<le> d \<Longrightarrow> d < 2 ^ 32 \<Longrightarrow> d mod 2 ^ 32 = d"
  by simp

lemma push_bit2_aligned: "push_bit 2 (z::uint32) AND 3 = 0"
proof -
  have "(3::uint32) = mask 2" by (simp add: mask_eq_exp_minus_1)
  moreover have "push_bit 2 z AND mask 2 = (0::uint32)"
    by (rule bit_word_eqI) (auto simp add: bit_simps)
  ultimately show ?thesis by simp
qed

lemma privateNetForUID_cases:
  assumes "availableSubnets a \<noteq> 0" and "To4 (IP (basePrivateIP a)) \<noteq> []"
  shows "privateNetForUID a uid =
           (if Contains (privateSubnet a) (derived_address a uid)
            then Value \<lparr>IP = derived_address a uid, Mask = Mask (basePrivateIP a)\<rparr>
            else Error (OutOfSubnet (derived_address a uid) (privateSubnet a)))"
  using assms
  by (simp add: privateNetForUID_def derived_address_def binary_Read_To4 binary_Write_def Let_def)

lemma privateNetForUID_Value:
  assumes "privateNetForUID a uid = Value r"
  shows "availableSubnets a \<noteq> 0" and "To4 (IP (basePrivateIP a)) \<noteq> []"
proof -
  show 1: "availableSubnets a \<noteq> 0"
    using assms by (auto simp add: privateNetForUID_def)
  show "To4 (IP (basePrivateIP a)) \<noteq> []"
    using assms 1 by (auto simp add: privateNetForUID_def binary_Read_Nil)
qed

section \<open>The example configurations, evaluated\<close>

lemma DefaultPrivateSubnet_eq:
  "DefaultPrivateSubnet = \<lparr>IP = [172, 16, 0, 28], Mask = [255, 240, 0, 0]\<rparr>"
  unfolding DefaultPrivateSubnet_def by code_simp

lemma Mask_DefaultPrivateSubnet: "Mask DefaultPrivateSubnet = CIDRMask 12 32"
  by (simp add: DefaultPrivateSubnet_def)

lemma Size_default: "Size [255, 240, 0, 0] = (12, 32)" by code_simp
lemma subnetsToSkip_default: "subnetsToSkip [172, 16, 0, 28] 12 = Inr 7" by code_simp
lemma To4_default: "To4 [172, 16, 0, 28] = [172, 16, 0, 28]" by code_simp
lemma IP_Mask_default: "To4 (IP_Mask [172, 16, 0, 28] [255, 240, 0, 0]) = [172, 16, 0, 0]" by code_simp
lemma CIDRMask_30: "CIDRMask 30 32 = [255, 255, 255, 252]" by code_simp
lemma pow2_default: "pow2_uint32 18 - 7 = 262137" by code_simp

lemma NewAllocator_default:
  "NewAllocator example_world ''/var/hsup'' DefaultPrivateSubnet 0 3 = Inr default_allocator"
  unfolding DefaultPrivateSubnet_eq
  by (simp add: NewAllocator_def example_world_def default_allocator_def Join_def Size_default
      subnetsToSkip_default To4_default IP_Mask_default CIDRMask_30 pow2_default Let_def)

lemma CIDRMask_inj: "0 \<le> p \<Longrightarrow> p \<le> 32 \<Longrightarrow> 0 \<le> q \<Longrightarrow> q \<le> 32 \<Longrightarrow> CIDRMask p 32 = CIDRMask q 32 \<Longrightarrow> p = q"
  by (metis Size_CIDRMask fst_conv)

lemma default_skip: "drop_bit 2 (take_bit 20 (Uint32 [172, 16, 0, 28])) = (7::uint32)"
  by code_simp

lemma default_anchor_aligned:
  "PutUint32 (push_bit 2 (drop_bit 2 (Uint32 [172, 16, 0, 28]))) = [172, 16, 0, 28]"
  by code_simp

lemma Uint32_default: "Uint32 [172, 16, 0, 28] = 2886729756" by code_simp

lemma privateNetForUID_default_minus1:
  "privateNetForUID default_allocator (- 1)
     = Value \<lparr>IP = [172, 23, 0, 24], Mask = [255, 255, 255, 252]\<rparr>"
  by code_simp

lemma privateNetForUID_default_114687:
  "privateNetForUID default_allocator 114687
     = Value \<lparr>IP = [172, 23, 0, 24], Mask = [255, 255, 255, 252]\<rparr>"
  by code_simp

lemma privateNetForUID_default_262136:
  "privateNetForUID default_allocator 262136
     = Value \<lparr>IP = [172, 31, 255, 252], Mask = [255, 255, 255, 252]\<rparr>"
  by code_simp

lemma privateNetForUID_default_2:
  "privateNetForUID default_allocator 2
     = Value \<lparr>IP = [172, 16, 0, 36], Mask = [255, 255, 255, 252]\<rparr>"
  by code_simp

lemma NewAllocator_host_block:
  "NewAllocator example_world ''/var/hsup'' \<lparr>IP = [10, 0, 0, 0], Mask = CIDRMask 32 32\<rparr> 0 3
     = Inr host_block_allocator"
proof -
  have 1: "CIDRMask 32 32 = [255, 255, 255, 255]" by code_simp
  have 2: "Size [255, 255, 255, 255] = (32, 32)" by code_simp
  have 3: "subnetsToSkip [10, 0, 0, 0] 32 = Inr 0" by code_simp
  have 4: "To4 [10, 0, 0, 0] = [10, 0, 0, 0]" by code_simp
  have 5: "To4 (IP_Mask [10, 0, 0, 0] [255, 255, 255, 255]) = [10, 0, 0, 0]" by code_simp
  have 6: "pow2_uint32 (- 2) = 0" by code_simp
  show ?thesis
    by (simp add: NewAllocator_def example_world_def host_block_allocator_def Join_def
        1 2 3 4 5 6 CIDRMask_30 Let_def)
qed

lemma spec_SubnetFor_default_minus1:
  "PutUint32 (word_of_int (spec_SubnetFor default_allocator (- 1))) = [172, 31, 255, 252]"
  by code_simp

lemma NewAllocator_striped_mask:
  "NewAllocator example_world ''/var/hsup'' \<lparr>IP = [10, 0, 0, 9], Mask = [255, 0, 255, 0]\<rparr> 0 3
     = Inr striped_mask_allocator"
proof -
  have 2: "Size [255, 0, 255, 0] = (0, 0)" by code_simp
  have 3: "subnetsToSkip [10, 0, 0, 9] 0 = Inr 41943042" by code_simp
  have 4: "To4 [10, 0, 0, 9] = [10, 0, 0, 9]" by code_simp
  have 5: "To4 (IP_Mask [10, 0, 0, 9] [255, 0, 255, 0]) = [10, 0, 0, 0]" by code_simp
  have 6: "pow2_uint32 30 - 41943042 = 1031798782" by code_simp
  show ?thesis
    by (simp add: NewAllocator_def example_world_def striped_mask_allocator_def Join_def
        2 3 4 5 6 CIDRMask_30 Let_def)
qed

section \<open>Address-space accounting\<close>

text \<open>
  Claim C6. For a block given as an IPv4 address and a prefix length \<open>p \<le> 30\<close>,
  \<^verbatim>\<open>NewAllocator\<close> sets \<^verbatim>\<open>availableSubnets\<close> to \<open>2 ^ (30 - p)\<close> minus the number of
  /30 blocks before the anchor inside the supernet, which is the anchor's address without
  its first \<open>p\<close> bits, divided by 4; no wrap-around occurs in the subtraction. For the
  default block this is \<open>2 ^ 18 - 7\<close>, and the subnet of \<^verbatim>\<open>minUID\<close> is the anchor
  172.16.0.28 itself with the /30 mask.
\<close>

theorem availableSubnets_accounting:
  assumes new: "NewAllocator w workDir net mn mx = Inr a"
    and m: "Mask net = CIDRMask p 32" and p: "0 \<le> p" "p \<le> 30"
  shows "unat (availableSubnets a)
           = 2 ^ (30 - nat p) - (unat (Uint32 (To4 (IP net))) mod 2 ^ (32 - nat p)) div 4
         \<and> (net = DefaultPrivateSubnet \<longrightarrow>
              availableSubnets a = 2 ^ 18 - 7
              \<and> privateNetForUID a mn
                  = Value \<lparr>IP = IP DefaultPrivateSubnet, Mask = CIDRMask 30 32\<rparr>)"
proof (intro conjI impI)
  have k: "2 \<le> 32 - nat p" "32 - nat p \<le> 32" using p by simp_all
  have e: "32 - nat p - 2 = 30 - nat p" by simp
  have "unat (availableSubnets a)
           = 2 ^ (32 - nat p - 2) - (unat (Uint32 (To4 (IP net))) mod 2 ^ (32 - nat p)) div 4"
    unfolding availableSubnets_ipv4[OF new m p] by (rule unat_avail[OF k])
  then show "unat (availableSubnets a)
           = 2 ^ (30 - nat p) - (unat (Uint32 (To4 (IP net))) mod 2 ^ (32 - nat p)) div 4"
    by (simp only: e)
next
  assume d: "net = DefaultPrivateSubnet"
  have "CIDRMask p 32 = CIDRMask 12 32" using m d by (simp add: Mask_DefaultPrivateSubnet)
  then have p12: "p = 12" using p by (intro CIDRMask_inj) simp_all
  have x: "To4 (IP net) = [172, 16, 0, 28]"
    using d by (simp add: DefaultPrivateSubnet_eq To4_default)
  have "availableSubnets a = 2 ^ 18 - drop_bit 2 (take_bit 20 (Uint32 [172, 16, 0, 28]))"
    using availableSubnets_ipv4[OF new m p] by (simp add: p12 x)
  then show av: "availableSubnets a = 2 ^ 18 - 7" by (simp only: default_skip)
  have "privateNetForUID a mn =
           Value \<lparr>IP = PutUint32 (push_bit 2 (drop_bit 2 (Uint32 [172, 16, 0, 28])
                        + (word_of_int (mn - mn) :: uint32) mod availableSubnets a)),
                  Mask = CIDRMask 30 32\<rparr>"
    using privateNetForUID_ipv4[OF new m p, of mn] by (simp only: x)
  then show "privateNetForUID a mn = Value \<lparr>IP = IP DefaultPrivateSubnet, Mask = CIDRMask 30 32\<rparr>"
    by (simp add: default_anchor_aligned DefaultPrivateSubnet_eq)
qed


theorem availableSubnets_accounting_witness:
  "NewAllocator example_world ''/var/hsup'' DefaultPrivateSubnet 0 3 = Inr default_allocator
   \<and> unat (availableSubnets default_allocator) = 262137
   \<and> privateNetForUID default_allocator 0
       = Value \<lparr>IP = [172, 16, 0, 28], Mask = [255, 255, 255, 252]\<rparr>"
  using NewAllocator_default
    availableSubnets_accounting[OF NewAllocator_default Mask_DefaultPrivateSubnet]
  by (simp add: DefaultPrivateSubnet_eq To4_default CIDRMask_30 Uint32_default)

section \<open>The subnet derivation\<close>

text \<open>
  In this embedding \<^verbatim>\<open>privateNetForUID\<close> is a function of the allocator's immutable
  fields and the UID alone: it takes no file system and no random source and returns
  none, so two calls with the same configuration and UID give the same result, and no
  call probes or changes the storage directory.
\<close>

text \<open>
  Claim C10. \<^verbatim>\<open>privateNetForUID\<close> has no range check on the UID. For a UID below
  \<^verbatim>\<open>minUID\<close> the difference is reduced modulo \<open>2 ^ 32\<close> by the conversion to
  \<^verbatim>\<open>uint32\<close> and only then modulo \<^verbatim>\<open>availableSubnets\<close>, and the call returns the
  subnet of that shift, not an error (for an allocator built from an IPv4 block with a
  prefix length of at most 30).
\<close>

theorem privateNetForUID_wraps_below_minUID:
  fixes uid :: int
  assumes new: "NewAllocator w workDir net mn mx = Inr a"
    and m: "Mask net = CIDRMask p 32" and p: "0 \<le> p" "p \<le> 30"
    and below: "uid < mn"
  shows "privateNetForUID a uid =
           Value \<lparr>IP = PutUint32 (word_of_int
                          ((uint (Uint32 (To4 (IP net))) div 4
                            + ((uid - mn) mod 2 ^ 32) mod uint (availableSubnets a)) * 4)),
                  Mask = CIDRMask 30 32\<rparr>"
  by (rule privateNetForUID_numeric(1)[OF new m p])

theorem privateNetForUID_wraps_below_minUID_witness:
  "NewAllocator example_world ''/var/hsup'' DefaultPrivateSubnet 0 3 = Inr default_allocator
   \<and> (- 1 :: int) < 0
   \<and> privateNetForUID default_allocator (- 1)
       = Value \<lparr>IP = [172, 23, 0, 24], Mask = [255, 255, 255, 252]\<rparr>"
proof -
  have b: "PutUint32 (word_of_int
              ((uint (Uint32 (To4 (IP DefaultPrivateSubnet))) div 4
                + ((- 1 - 0) mod 2 ^ 32) mod uint (availableSubnets default_allocator)) * 4))
           = [172, 23, 0, 24]"
    by code_simp
  note t = privateNetForUID_wraps_below_minUID[OF NewAllocator_default
      Mask_DefaultPrivateSubnet, of "- 1", unfolded b CIDRMask_30]
  show ?thesis using NewAllocator_default t by simp
qed

text \<open>
  Claim C5, as stated, fails for a UID below \<^verbatim>\<open>minUID\<close>: for the default
  configuration and the UID \<open>-1\<close> the documented arithmetic gives the shift 262136 and
  the address 172.31.255.252, the code the shift 114687 and the address 172.23.0.24.
\<close>

theorem privateNetForUID_documented_algorithm_counterexample:
  "privateNetForUID default_allocator (- 1)
     \<noteq> Value \<lparr>IP = PutUint32 (word_of_int (spec_SubnetFor default_allocator (- 1))),
               Mask = CIDRMask 30 32\<rparr>"
  by (simp add: privateNetForUID_default_minus1 spec_SubnetFor_default_minus1)

text \<open>
  Claim C5, amended. For an allocator built from an IPv4 block with a prefix length of at
  most 30 and every UID with \<open>minUID \<le> uid < minUID + 2 ^ 32\<close>, \<^verbatim>\<open>privateNetForUID\<close>
  returns the address that the documented arithmetic gives (shift
  \<open>(uid - minUID) mod availableSubnets\<close>, anchor divided by 4, plus the shift, times 4),
  which fits in 32 bits, with the /30 mask.
\<close>

theorem privateNetForUID_documented_algorithm:
  fixes uid :: int
  assumes new: "NewAllocator w workDir net mn mx = Inr a"
    and m: "Mask net = CIDRMask p 32" and p: "0 \<le> p" "p \<le> 30"
    and uid: "mn \<le> uid" "uid < mn + 2 ^ 32"
  shows "privateNetForUID a uid
           = Value \<lparr>IP = PutUint32 (word_of_int (spec_SubnetFor a uid)), Mask = CIDRMask 30 32\<rparr>
         \<and> 0 \<le> spec_SubnetFor a uid \<and> spec_SubnetFor a uid < 2 ^ 32"
proof -
  have d: "(uid - mn) mod 2 ^ 32 = uid - mn" using uid by (intro in_range_mod) simp_all
  have base: "IP (basePrivateIP a) = To4 (IP net)"
    using NewAllocator_Inr(7)[OF new] by simp
  have mn: "minUID a = mn" by (rule NewAllocator_Inr(5)[OF new])
  have s: "spec_SubnetFor a uid
             = (uint (Uint32 (To4 (IP net))) div 4
                 + ((uid - mn) mod 2 ^ 32) mod uint (availableSubnets a)) * 4"
    unfolding spec_SubnetFor_def spec_subnet_address_def spec_shift_def base mn d ..
  show ?thesis
    unfolding s
    using privateNetForUID_numeric(1-3)[OF new m p, of uid] by simp
qed

theorem privateNetForUID_documented_algorithm_witness:
  "NewAllocator example_world ''/var/hsup'' DefaultPrivateSubnet 0 3 = Inr default_allocator
   \<and> spec_SubnetFor default_allocator 2 = 2886729764
   \<and> privateNetForUID default_allocator 2
       = Value \<lparr>IP = [172, 16, 0, 36], Mask = [255, 255, 255, 252]\<rparr>"
proof -
  have v: "spec_SubnetFor default_allocator 2 = 2886729764" by code_simp
  have b: "PutUint32 (word_of_int 2886729764) = [172, 16, 0, 36]" by code_simp
  note t = privateNetForUID_documented_algorithm[OF NewAllocator_default
      Mask_DefaultPrivateSubnet, of 2, unfolded v b CIDRMask_30]
  show ?thesis using NewAllocator_default v t by simp
qed

text \<open>
  Claim C7, as stated for any two UIDs, fails below \<^verbatim>\<open>minUID\<close>: in the default
  configuration the UIDs \<open>-1\<close> and 114687 have different remainders modulo
  \<^verbatim>\<open>availableSubnets\<close> (262136 and 114687) and get the same subnet 172.23.0.24/30.
\<close>

theorem distinct_shifts_distinct_subnets_counterexample:
  "(- 1 - minUID default_allocator) mod uint (availableSubnets default_allocator)
     \<noteq> (114687 - minUID default_allocator) mod uint (availableSubnets default_allocator)
   \<and> privateNetForUID default_allocator (- 1)
       = Value \<lparr>IP = [172, 23, 0, 24], Mask = [255, 255, 255, 252]\<rparr>
   \<and> privateNetForUID default_allocator 114687
       = Value \<lparr>IP = [172, 23, 0, 24], Mask = [255, 255, 255, 252]\<rparr>"
proof -
  have a: "uint (availableSubnets default_allocator) = 262137"
    and b: "minUID default_allocator = 0"
    by (simp_all add: default_allocator_def)
  show ?thesis
    unfolding a b privateNetForUID_default_minus1 privateNetForUID_default_114687 by simp
qed

text \<open>
  Claim C7, amended. For an allocator built from an IPv4 block and two UIDs in
  \<open>[minUID, minUID + 2 ^ 32)\<close> whose differences to \<^verbatim>\<open>minUID\<close> have different
  remainders modulo \<^verbatim>\<open>availableSubnets\<close>, two successful calls return different
  network addresses. (That a call repeated with the same configuration returns the same
  result holds because the result is a function of the configuration and the UID.)
\<close>

theorem distinct_shifts_distinct_subnets:
  fixes u1 u2 :: int
  assumes new: "NewAllocator w workDir net mn mx = Inr a"
    and m: "Mask net = CIDRMask p 32" and p: "0 \<le> p" "p \<le> 32"
    and u1: "mn \<le> u1" "u1 < mn + 2 ^ 32"
    and u2: "mn \<le> u2" "u2 < mn + 2 ^ 32"
    and shifts: "(u1 - mn) mod uint (availableSubnets a) \<noteq> (u2 - mn) mod uint (availableSubnets a)"
    and r1: "privateNetForUID a u1 = Value r1"
    and r2: "privateNetForUID a u2 = Value r2"
  shows "IP r1 \<noteq> IP r2"
proof
  assume eq: "IP r1 = IP r2"
  have p30: "p \<le> 30"
  proof (rule ccontr)
    assume "\<not> p \<le> 30"
    then have "availableSubnets a = 0"
      using availableSubnets_large_prefix[OF new m] p by simp
    then show False using r1 by (simp add: privateNetForUID_def)
  qed
  define X where "X = uint (Uint32 (To4 (IP net))) div 4"
  define A where "A = uint (availableSubnets a)"
  have d1: "(u1 - mn) mod 2 ^ 32 = u1 - mn" using u1 by (intro in_range_mod) simp_all
  have d2: "(u2 - mn) mod 2 ^ 32 = u2 - mn" using u2 by (intro in_range_mod) simp_all
  note n1 = privateNetForUID_numeric(1-3)[OF new m p(1) p30, of u1, unfolded d1,
      folded X_def A_def]
  note n2 = privateNetForUID_numeric(1-3)[OF new m p(1) p30, of u2, unfolded d2,
      folded X_def A_def]
  define E1 where "E1 = PutUint32 (word_of_int ((X + (u1 - mn) mod A) * 4))"
  define E2 where "E2 = PutUint32 (word_of_int ((X + (u2 - mn) mod A) * 4))"
  have "E1 = E2"
    using eq r1 r2 n1(1)[folded E1_def] n2(1)[folded E2_def] by auto
  then have "PutUint32 (word_of_int ((X + (u1 - mn) mod A) * 4))
          = PutUint32 (word_of_int ((X + (u2 - mn) mod A) * 4))"
    unfolding E1_def E2_def .
  then have "(word_of_int ((X + (u1 - mn) mod A) * 4) :: uint32)
          = word_of_int ((X + (u2 - mn) mod A) * 4)"
    by (rule PutUint32_inj)
  then have "(X + (u1 - mn) mod A) * 4 = (X + (u2 - mn) mod A) * 4"
    by (intro word_of_int_inj_u32[OF n1(2) n1(3) n2(2) n2(3)])
  then have "(u1 - mn) mod A = (u2 - mn) mod A" by simp
  then show False using shifts by (simp add: A_def)
qed

theorem distinct_shifts_distinct_subnets_witness:
  "NewAllocator example_world ''/var/hsup'' DefaultPrivateSubnet 0 3 = Inr default_allocator
   \<and> privateNetForUID default_allocator 2
       = Value \<lparr>IP = [172, 16, 0, 36], Mask = [255, 255, 255, 252]\<rparr>
   \<and> privateNetForUID default_allocator 262136
       = Value \<lparr>IP = [172, 31, 255, 252], Mask = [255, 255, 255, 252]\<rparr>
   \<and> IP \<lparr>IP = [172, 16, 0, 36], Mask = [255, 255, 255, 252]\<rparr>
       \<noteq> IP \<lparr>IP = [172, 31, 255, 252], Mask = [255, 255, 255, 252]\<rparr>"
proof -
  have a: "uint (availableSubnets default_allocator) = 262137"
    by (simp add: default_allocator_def)
  have s: "(2 - 0) mod uint (availableSubnets default_allocator)
             \<noteq> (262136 - 0) mod uint (availableSubnets default_allocator)"
    unfolding a by simp
  note t = distinct_shifts_distinct_subnets[OF NewAllocator_default Mask_DefaultPrivateSubnet
      _ _ _ _ _ _ s privateNetForUID_default_2 privateNetForUID_default_262136]
  have "IP \<lparr>IP = [172, 16, 0, 36], Mask = [255, 255, 255, 252]\<rparr>
       \<noteq> IP \<lparr>IP = [172, 31, 255, 252], Mask = [255, 255, 255, 252]\<rparr>"
    by (rule t) simp_all
  then show ?thesis
    using NewAllocator_default privateNetForUID_default_2 privateNetForUID_default_262136
    by blast
qed

text \<open>
  Claim C3, as stated, fails twice. \<^verbatim>\<open>NewAllocator\<close> accepts the block 10.0.0.0/32 and
  sets \<^verbatim>\<open>availableSubnets\<close> to 0, and \<^verbatim>\<open>privateNetForUID\<close> then panics on the
  remainder by zero. And the result is not a function of \<open>(uid - minUID) mod
  availableSubnets\<close>: in the default configuration the UIDs \<open>-1\<close> and 262136 have the
  same remainder and get different subnets.
\<close>

theorem privateNetForUID_total_counterexample:
  "NewAllocator example_world ''/var/hsup'' \<lparr>IP = [10, 0, 0, 0], Mask = CIDRMask 32 32\<rparr> 0 3
     = Inr host_block_allocator
   \<and> privateNetForUID host_block_allocator 0 = Panic DivideByZero
   \<and> (- 1 - minUID default_allocator) mod uint (availableSubnets default_allocator)
       = (262136 - minUID default_allocator) mod uint (availableSubnets default_allocator)
   \<and> privateNetForUID default_allocator (- 1) \<noteq> privateNetForUID default_allocator 262136"
proof -
  have a: "uint (availableSubnets default_allocator) = 262137"
    and b: "minUID default_allocator = 0"
    by (simp_all add: default_allocator_def)
  have c: "privateNetForUID host_block_allocator 0 = Panic DivideByZero"
    by (simp add: privateNetForUID_def host_block_allocator_def)
  show ?thesis
    unfolding a b c privateNetForUID_default_minus1 privateNetForUID_default_262136
    using NewAllocator_host_block by simp
qed

text \<open>
  Claim C3, amended. For an allocator built by \<^verbatim>\<open>NewAllocator\<close> from an IPv4 block with
  a prefix length of at most 30 and every integer UID, \<^verbatim>\<open>privateNetForUID\<close> returns a
  subnet (no error, no panic: \<^verbatim>\<open>availableSubnets\<close> is not zero), and the result
  depends on the UID only through \<open>((uid - minUID) mod 2 ^ 32) mod availableSubnets\<close>.
\<close>

theorem privateNetForUID_total:
  fixes uid uid' :: int
  assumes new: "NewAllocator w workDir net mn mx = Inr a"
    and m: "Mask net = CIDRMask p 32" and p: "0 \<le> p" "p \<le> 30"
  shows "(\<exists>r. privateNetForUID a uid = Value r)
         \<and> (((uid - mn) mod 2 ^ 32) mod uint (availableSubnets a)
                = ((uid' - mn) mod 2 ^ 32) mod uint (availableSubnets a)
              \<longrightarrow> privateNetForUID a uid' = privateNetForUID a uid)"
  using privateNetForUID_numeric(1)[OF new m p, of uid]
    privateNetForUID_numeric(1)[OF new m p, of uid']
  by auto

theorem privateNetForUID_total_witness:
  "NewAllocator example_world ''/var/hsup'' DefaultPrivateSubnet 0 3 = Inr default_allocator
   \<and> (\<exists>r. privateNetForUID default_allocator 2 = Value r)
   \<and> privateNetForUID default_allocator 262139 = privateNetForUID default_allocator 2"
proof -
  have a: "uint (availableSubnets default_allocator) = 262137"
    by (simp add: default_allocator_def)
  note t = privateNetForUID_total[OF NewAllocator_default Mask_DefaultPrivateSubnet,
      of 2 262139, unfolded a]
  show ?thesis using NewAllocator_default t by simp
qed

text \<open>
  Claim C9. For every allocator and every UID (in particular every UID in
  \<open>[minUID, maxUID]\<close>): when \<^verbatim>\<open>privateNetForUID\<close> returns a subnet, the supernet
  contains its address, the address has four bytes and its two low bits are zero; and
  when the derived address is outside the supernet the call returns the out-of-subnet
  error instead.
\<close>

theorem subnet_within_supernet:
  "(privateNetForUID a uid = Value r \<longrightarrow>
      Contains (privateSubnet a) (IP r) \<and> length (IP r) = 4 \<and> Uint32 (IP r) AND 3 = 0)
   \<and> (availableSubnets a \<noteq> 0 \<and> To4 (IP (basePrivateIP a)) \<noteq> []
        \<and> \<not> Contains (privateSubnet a) (derived_address a uid)
        \<longrightarrow> privateNetForUID a uid
              = Error (OutOfSubnet (derived_address a uid) (privateSubnet a)))"
proof (intro conjI impI)
  assume v: "privateNetForUID a uid = Value r"
  note c = privateNetForUID_cases[OF privateNetForUID_Value[OF v], of uid]
  have r: "r = \<lparr>IP = derived_address a uid, Mask = Mask (basePrivateIP a)\<rparr>"
    and cont: "Contains (privateSubnet a) (derived_address a uid)"
    using v c by (auto split: if_splits)
  show "Contains (privateSubnet a) (IP r)" using cont by (simp add: r)
  show "length (IP r) = 4" by (simp add: r derived_address_def length_PutUint32)
  show "Uint32 (IP r) AND 3 = 0"
    by (simp add: r derived_address_def Uint32_PutUint32 push_bit2_aligned)
next
  assume "availableSubnets a \<noteq> 0 \<and> To4 (IP (basePrivateIP a)) \<noteq> []
        \<and> \<not> Contains (privateSubnet a) (derived_address a uid)"
  then show "privateNetForUID a uid
              = Error (OutOfSubnet (derived_address a uid) (privateSubnet a))"
    by (simp add: privateNetForUID_cases)
qed

theorem subnet_within_supernet_witness:
  "privateNetForUID default_allocator 2
     = Value \<lparr>IP = [172, 16, 0, 36], Mask = [255, 255, 255, 252]\<rparr>
   \<and> Contains (privateSubnet default_allocator) [172, 16, 0, 36]
   \<and> Uint32 [172, 16, 0, 36] AND 3 = 0
   \<and> NewAllocator example_world ''/var/hsup'' \<lparr>IP = [10, 0, 0, 9], Mask = [255, 0, 255, 0]\<rparr> 0 3
       = Inr striped_mask_allocator
   \<and> \<not> Contains (privateSubnet striped_mask_allocator) [10, 0, 1, 8]
   \<and> privateNetForUID striped_mask_allocator 64
       = Error (OutOfSubnet [10, 0, 1, 8] (privateSubnet striped_mask_allocator))"
proof -
  have d: "derived_address striped_mask_allocator 64 = [10, 0, 1, 8]" by code_simp
  have n: "\<not> Contains (privateSubnet striped_mask_allocator) [10, 0, 1, 8]" by code_simp
  have z: "availableSubnets striped_mask_allocator \<noteq> 0"
    by (simp add: striped_mask_allocator_def)
  have b: "To4 (IP (basePrivateIP striped_mask_allocator)) \<noteq> []" by code_simp
  note t1 = subnet_within_supernet[of default_allocator 2
      "\<lparr>IP = [172, 16, 0, 36], Mask = [255, 255, 255, 252]\<rparr>", THEN conjunct1]
  note t2 = subnet_within_supernet[of striped_mask_allocator 64 "\<lparr>IP = [], Mask = []\<rparr>", THEN conjunct2,
      unfolded d]
  show ?thesis
    using t1 t2 privateNetForUID_default_2 NewAllocator_striped_mask n z b by simp
qed

end
